theory Spec2Isabelle
  imports Main "HOL-Library.Word"
begin

unbundle bit_operations_syntax

section \<open>The vfuse relay server (vfuse/server/server.go)\<close>

text \<open>
  The server mounts a FUSE filesystem and relays each operation to a client over one
  connection. This theory embeds \<^verbatim>\<open>server.go\<close>: the error mapping
  \<^verbatim>\<open>fuseError\<close>, the correlation registry (\<^verbatim>\<open>nextID\<close>,
  \<^verbatim>\<open>readFromClient\<close>, \<^verbatim>\<open>forgetRequestLocked\<close>),
  \<^verbatim>\<open>sendPacket\<close>, the per-operation handlers of \<^verbatim>\<open>FS\<close> and the
  handlers of an open \<^verbatim>\<open>file\<close>.
\<close>

subsection \<open>Machine types\<close>

type_synonym u64 = "64 word"
type_synonym u32 = "32 word"
type_synonym i64 = "64 word"
type_synonym i32 = "32 word"
type_synonym byte = "8 word"

subsection \<open>Status codes of the FUSE library\<close>

text \<open>
  \<^verbatim>\<open>fuse.Status\<close> is an errno number. The handlers use five of them; on Linux they
  are 0 (OK), 2 (ENOENT), 5 (EIO), 20 (ENOTDIR) and 30 (EROFS), pairwise different, which
  is all the model keeps.
\<close>

datatype Status = OK | ENOENT | EIO | EROFS | ENOTDIR

subsection \<open>Wire messages (package pb)\<close>

text \<open>
  Modelled from the spec: the message declarations of package \<^verbatim>\<open>pb\<close>, which is
  not among the sources. The spec gives one request/response pair per operation, every
  response with an optional Error record and an operation-specific payload; the fields
  below are the ones \<^verbatim>\<open>server.go\<close> writes and reads. A field of a received
  message is optional (a nil pointer when unset), and the generated getter
  \<^verbatim>\<open>GetX\<close> returns the zero value when the field is unset.
\<close>

record Error =
  NotExist :: "bool option"
  ReadOnly :: "bool option"
  NotDir :: "bool option"

definition GetNotExist :: "Error \<Rightarrow> bool" where
  "GetNotExist e = (case NotExist e of None \<Rightarrow> False | Some b \<Rightarrow> b)"

definition GetReadOnly :: "Error \<Rightarrow> bool" where
  "GetReadOnly e = (case ReadOnly e of None \<Rightarrow> False | Some b \<Rightarrow> b)"

definition GetNotDir :: "Error \<Rightarrow> bool" where
  "GetNotDir e = (case NotDir e of None \<Rightarrow> False | Some b \<Rightarrow> b)"

subsection \<open>Error mapping\<close>

text \<open>
  \<^verbatim>\<open>fuseError(err *pb.Error)\<close>: the pointer is an option, \<open>None\<close> for nil.
\<close>

definition fuseError :: "Error option \<Rightarrow> Status" where
  "fuseError err =
     (case err of
        None \<Rightarrow> OK
      | Some e \<Rightarrow>
          if GetNotExist e then ENOENT
          else if GetReadOnly e then EROFS
          else if GetNotDir e then ENOTDIR
          else EIO)"


subsection \<open>Message bodies\<close>

record pb_Time =
  Sec :: i64
  Nsec :: i32

record pb_Attr =
  attr_Size :: "u64 option"
  attr_Mode :: "u32 option"

definition attr_GetSize :: "pb_Attr \<Rightarrow> u64" where
  "attr_GetSize a = (case attr_Size a of None \<Rightarrow> 0 | Some n \<Rightarrow> n)"

definition attr_GetMode :: "pb_Attr \<Rightarrow> u32" where
  "attr_GetMode a = (case attr_Mode a of None \<Rightarrow> 0 | Some m \<Rightarrow> m)"

record pb_DirEntry =
  ent_Name :: "string option"
  ent_Mode :: "u32 option"

definition ent_GetName :: "pb_DirEntry \<Rightarrow> string" where
  "ent_GetName d = (case ent_Name d of None \<Rightarrow> [] | Some s \<Rightarrow> s)"

definition ent_GetMode :: "pb_DirEntry \<Rightarrow> u32" where
  "ent_GetMode d = (case ent_Mode d of None \<Rightarrow> 0 | Some m \<Rightarrow> m)"

text \<open>
  A message body is one of the thirty kinds. The arguments of a request are the fields
  the server sets, in the order of the struct literal in \<^verbatim>\<open>server.go\<close>
  (\<^verbatim>\<open>TruncateRequest\<close> is built with either Name or Handle, then Size;
  \<^verbatim>\<open>UtimeRequest\<close> with Name, Atime, Mtime, the times being pointers). The first
  argument of a response is its \<^verbatim>\<open>Err\<close> field, the second its payload:
  \<^verbatim>\<open>Attr\<close>, \<^verbatim>\<open>Handle\<close>, \<^verbatim>\<open>Data\<close>, \<^verbatim>\<open>Entry\<close>, \<^verbatim>\<open>Target\<close>.
\<close>

datatype message =
    AttrRequest string
  | AttrResponse "Error option" "pb_Attr option"
  | ChmodRequest string u32
  | ChmodResponse "Error option"
  | CloseRequest u64
  | CloseResponse "Error option"
  | MkdirRequest string u32
  | MkdirResponse "Error option"
  | MknodRequest string u32 u32
  | MknodResponse "Error option"
  | OpenRequest string u32
  | OpenResponse "Error option" "u64 option"
  | ReadRequest u64 u64 u64
  | ReadResponse "Error option" "byte list"
  | ReaddirRequest string
  | ReaddirResponse "Error option" "pb_DirEntry list"
  | ReadlinkRequest string
  | ReadlinkResponse "Error option" "string option"
  | RenameRequest string string
  | RenameResponse "Error option"
  | RmdirRequest string
  | RmdirResponse "Error option"
  | SymlinkRequest string string
  | SymlinkResponse "Error option"
  | TruncateRequest "string option" "u64 option" u64
  | TruncateResponse "Error option"
  | UnlinkRequest string
  | UnlinkResponse "Error option"
  | UtimeRequest string "pb_Time option" "pb_Time option"
  | UtimeResponse "Error option"

definition GetHandle :: "u64 option \<Rightarrow> u64" where
  "GetHandle h = (case h of None \<Rightarrow> 0 | Some v \<Rightarrow> v)"

definition GetTarget :: "string option \<Rightarrow> string" where
  "GetTarget t = (case t of None \<Rightarrow> [] | Some s \<Rightarrow> s)"

text \<open>\<^verbatim>\<open>vfuse.Packet\<close>: the header holds the correlation id only.\<close>

record Packet =
  ID :: u64
  Body :: message

subsection \<open>Results of the FUSE library\<close>

text \<open>
  \<^verbatim>\<open>fuse.Attr\<close> with the five fields the server sets (the others stay zero),
  \<^verbatim>\<open>fuse.DirEntry\<close>, and \<^verbatim>\<open>fuse.ReadResultData\<close>, which wraps the byte
  slice it is given.
\<close>

record fuse_Attr =
  Size :: u64
  Mode :: u32
  Nlink :: u32
  Blksize :: u32
  Blocks :: u64

record fuse_DirEntry =
  Name :: string
  DirMode :: u32

datatype ReadResult = ReadResultData "byte list"

subsection \<open>Faults\<close>

text \<open>
  A handler that does not return a value either panics (Go's run-time error for reading
  a field or calling a value method through a nil pointer) or waits for ever on its
  receive channel.
\<close>

datatype fault = NilDereference | BlocksForever

datatype error = WriteError

subsection \<open>The filesystem instance and its surroundings\<close>

text \<open>
  A channel is identified by the order of its creation. The read loop
  \<^verbatim>\<open>readFromClient\<close> is a goroutine; \<open>reader\<close> is where it stands: not started,
  blocked in \<^verbatim>\<open>ReadPacket\<close>, between the unlock and the channel send (with its
  locals \<^verbatim>\<open>id\<close> (written \<open>rid\<close> here), \<^verbatim>\<open>resc\<close>, \<^verbatim>\<open>p.Body\<close>), or returned.
\<close>

type_synonym chan = nat

datatype reader = NotStarted | Reading | Sending u64 chan message | Returned

text \<open>
  The fields \<open>clientOnce\<close>, \<open>nextid\<close> and \<open>res\<close> are those of the Go struct
  (\<open>clientOnce\<close> is true once \<^verbatim>\<open>initClient\<close> has run, which also sets
  \<^verbatim>\<open>vc\<close>). The others are what the code acts on: \<open>written\<close> lists the packets
  written to \<^verbatim>\<open>vc\<close> so far, \<open>made\<close> counts the channels created by
  \<^verbatim>\<open>make\<close>, \<open>delivered\<close> lists the channel sends of the read loop so far.
\<close>

record FS =
  clientOnce :: bool
  nextid :: u64
  res :: "u64 \<rightharpoonup> chan"
  written :: "Packet list"
  made :: nat
  reader :: reader
  delivered :: "(u64 \<times> chan \<times> message) list"

text \<open>
  What the handlers cannot decide: whether \<^verbatim>\<open>WritePacket\<close> fails on a packet, and
  what a receive on a channel yields (\<open>None\<close> when nothing is ever sent on it).
\<close>

record env =
  WritePacket_fails :: "Packet \<Rightarrow> bool"
  recv :: "chan \<Rightarrow> message option"

text \<open>
  \<^verbatim>\<open>newFS\<close> stores its argument \<^verbatim>\<open>clientConn\<close> for \<^verbatim>\<open>initClient\<close>; the
  connection it yields shows here only through \<open>env\<close> and the results of
  \<^verbatim>\<open>ReadPacket\<close>. \<^verbatim>\<open>initClient\<close> sets \<^verbatim>\<open>vc\<close> and starts the read loop;
  \<^verbatim>\<open>clientOnce.Do\<close> runs it on the first call only.
\<close>

definition newFS :: FS where
  "newFS = \<lparr>clientOnce = False, nextid = 0, res = Map.empty, written = [], made = 0,
            reader = NotStarted, delivered = []\<rparr>"

definition initClient :: "FS \<Rightarrow> FS" where
  "initClient fs = fs\<lparr>reader := Reading\<rparr>"

definition clientOnce_Do :: "FS \<Rightarrow> FS" where
  "clientOnce_Do fs = (if clientOnce fs then fs else (initClient fs)\<lparr>clientOnce := True\<rparr>)"

subsection \<open>Correlation registry\<close>

text \<open>
  \<^verbatim>\<open>nextID\<close> runs under the mutex. Its \<^verbatim>\<open>make(chan proto.Message, 1)\<close> yields the
  channel number \<open>made fs\<close>, a channel of capacity one that did not exist before;
  \<^verbatim>\<open>fs.nextid++\<close> is the addition of a \<^verbatim>\<open>uint64\<close>, which wraps. In
  \<^verbatim>\<open>sendPacket\<close> the entry stays in the registry when the write fails.
\<close>

definition nextID :: "FS \<Rightarrow> (u64 \<times> chan) \<times> FS" where
  "nextID fs =
     (let c = made fs;
          rid = nextid fs
      in ((rid, c), fs\<lparr>made := Suc (made fs), nextid := nextid fs + 1, res := (res fs)(rid \<mapsto> c)\<rparr>))"

definition sendPacket :: "env \<Rightarrow> message \<Rightarrow> FS \<Rightarrow> (error + chan) \<times> FS" where
  "sendPacket e body fs =
     (let fs1 = clientOnce_Do fs;
          ((rid, resc), fs2) = nextID fs1;
          p = \<lparr>ID = rid, Body = body\<rparr>
      in if WritePacket_fails e p then (Inl WriteError, fs2)
         else (Inr resc, fs2\<lparr>written := written fs2 @ [p]\<rparr>))"

definition forgetRequestLocked :: "u64 \<Rightarrow> FS \<Rightarrow> FS" where
  "forgetRequestLocked rid fs = fs\<lparr>res := (res fs)(rid := None)\<rparr>"

text \<open>
  One pass of the loop of \<^verbatim>\<open>readFromClient\<close> from \<^verbatim>\<open>ReadPacket\<close> (whose result
  is \<open>None\<close> for an error) to the test of \<^verbatim>\<open>ok\<close> after the unlock; then the
  channel send that ends the pass.
\<close>

definition readFromClient_read :: "Packet option \<Rightarrow> FS \<Rightarrow> FS" where
  "readFromClient_read r fs =
     (case r of
        None \<Rightarrow> fs\<lparr>reader := Returned\<rparr>
      | Some p \<Rightarrow>
          (let rid = ID p in
           case res fs rid of
             Some resc \<Rightarrow> (forgetRequestLocked rid fs)\<lparr>reader := Sending rid resc (Body p)\<rparr>
           | None \<Rightarrow> fs\<lparr>reader := Returned\<rparr>))"

definition readFromClient_send :: "FS \<Rightarrow> FS" where
  "readFromClient_send fs =
     (case reader fs of
        Sending rid resc body \<Rightarrow> fs\<lparr>delivered := delivered fs @ [(rid, resc, body)], reader := Reading\<rparr>
      | _ \<Rightarrow> fs)"

text \<open>
  The handlers and the read loop run concurrently; the mutex makes each critical section
  one step. A schedule is a list of events: a handler calls \<^verbatim>\<open>sendPacket\<close>, the
  read loop gets a result from \<^verbatim>\<open>ReadPacket\<close>, the read loop sends on the channel.
  An event of the read loop that does not fit where the loop stands changes nothing.
\<close>

datatype event = Call_sendPacket message | Read_Packet "Packet option" | Chan_Send

fun step :: "env \<Rightarrow> event \<Rightarrow> FS \<Rightarrow> FS" where
  "step e (Call_sendPacket body) fs = snd (sendPacket e body fs)"
| "step e (Read_Packet r) fs = (if reader fs = Reading then readFromClient_read r fs else fs)"
| "step e Chan_Send fs = readFromClient_send fs"

fun run :: "env \<Rightarrow> event list \<Rightarrow> FS \<Rightarrow> FS" where
  "run e [] fs = fs"
| "run e (ev # evs) fs = run e evs (step e ev fs)"

text \<open>The values returned by the calls of \<^verbatim>\<open>nextID\<close> along a schedule.\<close>

fun nextID_returns :: "env \<Rightarrow> event list \<Rightarrow> FS \<Rightarrow> (u64 \<times> chan) list" where
  "nextID_returns e [] fs = []"
| "nextID_returns e (Call_sendPacket body # evs) fs =
     fst (nextID (clientOnce_Do fs)) # nextID_returns e evs (step e (Call_sendPacket body) fs)"
| "nextID_returns e (ev # evs) fs = nextID_returns e evs (step e ev fs)"

fun is_Call_sendPacket :: "event \<Rightarrow> bool" where
  "is_Call_sendPacket (Call_sendPacket body) = True"
| "is_Call_sendPacket ev = False"

subsection \<open>Handlers of the filesystem\<close>

text \<open>
  Each handler takes the surroundings, its Go arguments (the unused
  \<^verbatim>\<open>context\<close> apart) and the instance, and gives what it returns, or the fault
  that keeps it from returning, with the instance afterwards. The type assertion
  \<^verbatim>\<open>(<-resc).(*pb.XResponse)\<close> is the case distinction on the received body: the
  case of the expected constructor is \<^verbatim>\<open>ok\<close>, every other case is
  \<^verbatim>\<open>!ok\<close>, where \<^verbatim>\<open>res\<close> is nil.
\<close>

definition Chmod :: "env \<Rightarrow> string \<Rightarrow> u32 \<Rightarrow> FS \<Rightarrow> (fault + Status) \<times> FS" where
  "Chmod e name mode fs =
     (case sendPacket e (ChmodRequest name mode) fs of
        (Inl err, fs') \<Rightarrow> (Inr EIO, fs')
      | (Inr resc, fs') \<Rightarrow>
          (case recv e resc of
             None \<Rightarrow> (Inl BlocksForever, fs')
           | Some (ChmodResponse err) \<Rightarrow> (Inr (fuseError err), fs')
           | Some _ \<Rightarrow> (Inr EIO, fs')))"

text \<open>\<^verbatim>\<open>0755 | S_IFDIR\<close> with \<^verbatim>\<open>S_IFDIR = 0x4000\<close>; octal 755 is 493.\<close>

definition S_IFDIR :: u32 where
  "S_IFDIR = 0x4000"

definition GetAttr :: "env \<Rightarrow> string \<Rightarrow> FS \<Rightarrow> (fault + fuse_Attr option \<times> Status) \<times> FS" where
  "GetAttr e name fs =
     (if name = [] then
        (Inr (Some \<lparr>Size = 0, Mode = 493 OR S_IFDIR, Nlink = 1, Blksize = 1024, Blocks = 1\<rparr>, OK), fs)
      else
        case sendPacket e (AttrRequest name) fs of
          (Inl err, fs') \<Rightarrow> (Inr (None, EIO), fs')
        | (Inr resc, fs') \<Rightarrow>
            (case recv e resc of
               None \<Rightarrow> (Inl BlocksForever, fs')
             | Some (AttrResponse err attr) \<Rightarrow>
                 (if err \<noteq> None then (Inr (None, fuseError err), fs')
                  else case attr of
                         None \<Rightarrow> (Inr (None, EIO), fs')
                       | Some a \<Rightarrow>
                           (Inr (Some \<lparr>Size = attr_GetSize a, Mode = attr_GetMode a, Nlink = 1,
                                       Blksize = 1024, Blocks = attr_GetSize a div 1024\<rparr>, OK), fs'))
             | Some _ \<Rightarrow> (Inr (None, EIO), fs')))"

text \<open>
  In \<^verbatim>\<open>Mkdir\<close> (and \<^verbatim>\<open>Rmdir\<close> below) the branch \<^verbatim>\<open>!ok\<close> only logs:
  control goes on to \<^verbatim>\<open>fuseError(res.Err)\<close>, which reads a field through the nil
  \<^verbatim>\<open>res\<close>.
\<close>

definition Mkdir :: "env \<Rightarrow> string \<Rightarrow> u32 \<Rightarrow> FS \<Rightarrow> (fault + Status) \<times> FS" where
  "Mkdir e name mode fs =
     (case sendPacket e (MkdirRequest name mode) fs of
        (Inl err, fs') \<Rightarrow> (Inr EIO, fs')
      | (Inr resc, fs') \<Rightarrow>
          (case recv e resc of
             None \<Rightarrow> (Inl BlocksForever, fs')
           | Some (MkdirResponse err) \<Rightarrow> (Inr (fuseError err), fs')
           | Some _ \<Rightarrow> (Inl NilDereference, fs')))"

text \<open>
  The struct \<^verbatim>\<open>file\<close> of \<^verbatim>\<open>server.go\<close> (an open file), without its pointer to
  the instance and the embedded default file.
\<close>

record file_t =
  handle :: u64
  origName :: string
  origFlags :: u32

definition Open :: "env \<Rightarrow> string \<Rightarrow> u32 \<Rightarrow> FS \<Rightarrow> (fault + file_t option \<times> Status) \<times> FS" where
  "Open e name flags fs =
     (case sendPacket e (OpenRequest name flags) fs of
        (Inl err, fs') \<Rightarrow> (Inr (None, EIO), fs')
      | (Inr resc, fs') \<Rightarrow>
          (case recv e resc of
             None \<Rightarrow> (Inl BlocksForever, fs')
           | Some (OpenResponse err h) \<Rightarrow>
               (if err \<noteq> None then (Inr (None, fuseError err), fs')
                else
                  let f = \<lparr>handle = GetHandle h, origName = name, origFlags = flags\<rparr>
                  in if handle f = 0 then (Inr (None, EIO), fs')
                     else (Inr (Some f, OK), fs'))
           | Some _ \<Rightarrow> (Inr (None, EIO), fs')))"

text \<open>
  \<^verbatim>\<open>OpenDir\<close> returns a slice and a status; the slice is an option, \<open>None\<close> for nil.
  The loop over \<^verbatim>\<open>res.Entry\<close> fills position \<open>i\<close> from entry \<open>i\<close>: a map.
\<close>

definition OpenDir :: "env \<Rightarrow> string \<Rightarrow> FS \<Rightarrow> (fault + fuse_DirEntry list option \<times> Status) \<times> FS" where
  "OpenDir e name fs =
     (case sendPacket e (ReaddirRequest name) fs of
        (Inl err, fs') \<Rightarrow> (Inr (None, EIO), fs')
      | (Inr resc, fs') \<Rightarrow>
          (case recv e resc of
             None \<Rightarrow> (Inl BlocksForever, fs')
           | Some (ReaddirResponse err entry) \<Rightarrow>
               (let stream = map (\<lambda>ent. \<lparr>Name = ent_GetName ent, DirMode = ent_GetMode ent\<rparr>) entry
                in (Inr (Some stream, fuseError err), fs'))
           | Some _ \<Rightarrow> (Inr (None, EIO), fs')))"

definition Readlink :: "env \<Rightarrow> string \<Rightarrow> FS \<Rightarrow> (fault + string \<times> Status) \<times> FS" where
  "Readlink e name fs =
     (case sendPacket e (ReadlinkRequest name) fs of
        (Inl err, fs') \<Rightarrow> (Inr ([], EIO), fs')
      | (Inr resc, fs') \<Rightarrow>
          (case recv e resc of
             None \<Rightarrow> (Inl BlocksForever, fs')
           | Some (ReadlinkResponse err target) \<Rightarrow>
               (if err \<noteq> None then (Inr ([], fuseError err), fs')
                else (Inr (GetTarget target, OK), fs'))
           | Some _ \<Rightarrow> (Inr ([], EIO), fs')))"

definition Rename :: "env \<Rightarrow> string \<Rightarrow> string \<Rightarrow> FS \<Rightarrow> (fault + Status) \<times> FS" where
  "Rename e name target fs =
     (case sendPacket e (RenameRequest name target) fs of
        (Inl err, fs') \<Rightarrow> (Inr EIO, fs')
      | (Inr resc, fs') \<Rightarrow>
          (case recv e resc of
             None \<Rightarrow> (Inl BlocksForever, fs')
           | Some (RenameResponse err) \<Rightarrow> (Inr (fuseError err), fs')
           | Some _ \<Rightarrow> (Inr EIO, fs')))"

definition Rmdir :: "env \<Rightarrow> string \<Rightarrow> FS \<Rightarrow> (fault + Status) \<times> FS" where
  "Rmdir e name fs =
     (case sendPacket e (RmdirRequest name) fs of
        (Inl err, fs') \<Rightarrow> (Inr EIO, fs')
      | (Inr resc, fs') \<Rightarrow>
          (case recv e resc of
             None \<Rightarrow> (Inl BlocksForever, fs')
           | Some (RmdirResponse err) \<Rightarrow> (Inr (fuseError err), fs')
           | Some _ \<Rightarrow> (Inl NilDereference, fs')))"

definition Symlink :: "env \<Rightarrow> string \<Rightarrow> string \<Rightarrow> FS \<Rightarrow> (fault + Status) \<times> FS" where
  "Symlink e val linkName fs =
     (case sendPacket e (SymlinkRequest val linkName) fs of
        (Inl err, fs') \<Rightarrow> (Inr EIO, fs')
      | (Inr resc, fs') \<Rightarrow>
          (case recv e resc of
             None \<Rightarrow> (Inl BlocksForever, fs')
           | Some (SymlinkResponse err) \<Rightarrow> (Inr (fuseError err), fs')
           | Some _ \<Rightarrow> (Inr EIO, fs')))"

text \<open>
  A \<^verbatim>\<open>time.Time\<close> is kept as what its methods \<^verbatim>\<open>Unix\<close> and
  \<^verbatim>\<open>Nanosecond\<close> return. Both are value methods: calling one through a nil
  \<^verbatim>\<open>*time.Time\<close> dereferences nil. \<^verbatim>\<open>int32(...)\<close> keeps the low 32 bits.
\<close>

record go_Time =
  Unix :: i64
  Nanosecond :: int

definition pbTime :: "go_Time option \<Rightarrow> fault + pb_Time" where
  "pbTime t =
     (case t of
        None \<Rightarrow> Inl NilDereference
      | Some tm \<Rightarrow> Inr \<lparr>Sec = Unix tm, Nsec = word_of_int (Nanosecond tm)\<rparr>)"

text \<open>
  The arguments of \<^verbatim>\<open>sendPacket\<close> are evaluated before the call: a fault in
  \<^verbatim>\<open>pbTime\<close> leaves the instance as it was.
\<close>

definition Utimens :: "env \<Rightarrow> string \<Rightarrow> go_Time option \<Rightarrow> go_Time option \<Rightarrow> FS \<Rightarrow> (fault + Status) \<times> FS" where
  "Utimens e name atime mtime fs =
     (case pbTime atime of
        Inl f \<Rightarrow> (Inl f, fs)
      | Inr a \<Rightarrow>
          (case pbTime mtime of
             Inl f \<Rightarrow> (Inl f, fs)
           | Inr m \<Rightarrow>
               (case sendPacket e (UtimeRequest name (Some a) (Some m)) fs of
                  (Inl err, fs') \<Rightarrow> (Inr EIO, fs')
                | (Inr resc, fs') \<Rightarrow>
                    (case recv e resc of
                       None \<Rightarrow> (Inl BlocksForever, fs')
                     | Some (UtimeResponse err) \<Rightarrow> (Inr (fuseError err), fs')
                     | Some _ \<Rightarrow> (Inr EIO, fs')))))"

definition Mknod :: "env \<Rightarrow> string \<Rightarrow> u32 \<Rightarrow> u32 \<Rightarrow> FS \<Rightarrow> (fault + Status) \<times> FS" where
  "Mknod e name mode dev fs =
     (case sendPacket e (MknodRequest name mode dev) fs of
        (Inl err, fs') \<Rightarrow> (Inr EIO, fs')
      | (Inr resc, fs') \<Rightarrow>
          (case recv e resc of
             None \<Rightarrow> (Inl BlocksForever, fs')
           | Some (MknodResponse err) \<Rightarrow> (Inr (fuseError err), fs')
           | Some _ \<Rightarrow> (Inr EIO, fs')))"

definition Unlink :: "env \<Rightarrow> string \<Rightarrow> FS \<Rightarrow> (fault + Status) \<times> FS" where
  "Unlink e name fs =
     (case sendPacket e (UnlinkRequest name) fs of
        (Inl err, fs') \<Rightarrow> (Inr EIO, fs')
      | (Inr resc, fs') \<Rightarrow>
          (case recv e resc of
             None \<Rightarrow> (Inl BlocksForever, fs')
           | Some (UnlinkResponse err) \<Rightarrow> (Inr (fuseError err), fs')
           | Some _ \<Rightarrow> (Inr EIO, fs')))"

definition Truncate :: "env \<Rightarrow> string \<Rightarrow> u64 \<Rightarrow> FS \<Rightarrow> (fault + Status) \<times> FS" where
  "Truncate e name sz fs =
     (case sendPacket e (TruncateRequest (Some name) None sz) fs of
        (Inl err, fs') \<Rightarrow> (Inr EIO, fs')
      | (Inr resc, fs') \<Rightarrow>
          (case recv e resc of
             None \<Rightarrow> (Inl BlocksForever, fs')
           | Some (TruncateResponse err) \<Rightarrow> (Inr (fuseError err), fs')
           | Some _ \<Rightarrow> (Inr EIO, fs')))"

subsection \<open>Handlers of an open file\<close>

definition file_Flush :: "env \<Rightarrow> file_t \<Rightarrow> FS \<Rightarrow> (fault + Status) \<times> FS" where
  "file_Flush e f fs =
     (case sendPacket e (CloseRequest (handle f)) fs of
        (Inl err, fs') \<Rightarrow> (Inr EIO, fs')
      | (Inr resc, fs') \<Rightarrow>
          (case recv e resc of
             None \<Rightarrow> (Inl BlocksForever, fs')
           | Some (CloseResponse err) \<Rightarrow> (Inr (fuseError err), fs')
           | Some _ \<Rightarrow> (Inr EIO, fs')))"

text \<open>
  \<^verbatim>\<open>Read(dest []byte, off int64)\<close>: of \<^verbatim>\<open>dest\<close> only the length is used;
  \<^verbatim>\<open>uint64(off)\<close> keeps the 64 bits of \<^verbatim>\<open>off\<close>.
\<close>

definition file_Read :: "env \<Rightarrow> file_t \<Rightarrow> byte list \<Rightarrow> i64 \<Rightarrow> FS \<Rightarrow> (fault + ReadResult option \<times> Status) \<times> FS" where
  "file_Read e f dest off fs =
     (case sendPacket e (ReadRequest (handle f) off (of_nat (length dest))) fs of
        (Inl err, fs') \<Rightarrow> (Inr (None, EIO), fs')
      | (Inr resc, fs') \<Rightarrow>
          (case recv e resc of
             None \<Rightarrow> (Inl BlocksForever, fs')
           | Some (ReadResponse err data) \<Rightarrow> (Inr (Some (ReadResultData data), OK), fs')
           | Some _ \<Rightarrow> (Inr (None, EIO), fs')))"

definition file_Truncate :: "env \<Rightarrow> file_t \<Rightarrow> u64 \<Rightarrow> FS \<Rightarrow> (fault + Status) \<times> FS" where
  "file_Truncate e f sz fs =
     (case sendPacket e (TruncateRequest None (Some (handle f)) sz) fs of
        (Inl err, fs') \<Rightarrow> (Inr EIO, fs')
      | (Inr resc, fs') \<Rightarrow>
          (case recv e resc of
             None \<Rightarrow> (Inl BlocksForever, fs')
           | Some (TruncateResponse err) \<Rightarrow> (Inr (fuseError err), fs')
           | Some _ \<Rightarrow> (Inr EIO, fs')))"

subsection \<open>Invariant of the registry\<close>

text \<open>
  What every schedule keeps, and the proofs below rest on: the channels of the registry
  were created before, no channel is registered under two ids, a channel that received a
  message is no longer registered and received one message only, the channel the read
  loop is about to send on is neither registered nor has it received a message, and the
  read loop runs only after \<^verbatim>\<open>initClient\<close>.
\<close>

definition registry_inv :: "FS \<Rightarrow> bool" where
  "registry_inv fs \<longleftrightarrow>
     (\<forall>rid c. res fs rid = Some c \<longrightarrow> c < made fs)
   \<and> (\<forall>rid rid' c. res fs rid = Some c \<and> res fs rid' = Some c \<longrightarrow> rid = rid')
   \<and> (\<forall>x \<in> set (delivered fs). fst (snd x) < made fs \<and> (\<forall>rid. res fs rid \<noteq> Some (fst (snd x))))
   \<and> distinct (map (fst \<circ> snd) (delivered fs))
   \<and> (\<forall>rid c b. reader fs = Sending rid c b \<longrightarrow>
         c < made fs \<and> (\<forall>rid'. res fs rid' \<noteq> Some c) \<and> c \<notin> (fst \<circ> snd) ` set (delivered fs))
   \<and> (reader fs \<noteq> NotStarted \<longrightarrow> clientOnce fs)"

section \<open>Error mapping: the table\<close>

text \<open>
  C5. The error mapping is the table: no Error record maps to OK; an Error with the
  not-found reason maps to ENOENT; one with the read-only reason (and not the not-found
  reason) to EROFS; one with the not-a-directory reason (and neither of the former) to
  ENOTDIR; an Error record with none of the three reasons set maps to EIO; and no Error
  record at all maps to success, while an Error record never does.
\<close>

theorem fuseError_table:
  "fuseError None = OK
   \<and> (GetNotExist e \<longrightarrow> fuseError (Some e) = ENOENT)
   \<and> (\<not> GetNotExist e \<and> GetReadOnly e \<longrightarrow> fuseError (Some e) = EROFS)
   \<and> (\<not> GetNotExist e \<and> \<not> GetReadOnly e \<and> GetNotDir e \<longrightarrow> fuseError (Some e) = ENOTDIR)
   \<and> (\<not> GetNotExist e \<and> \<not> GetReadOnly e \<and> \<not> GetNotDir e \<longrightarrow> fuseError (Some e) = EIO)
   \<and> fuseError (Some e) \<noteq> OK"
  by (simp add: fuseError_def)

theorem fuseError_table_witness:
  "fuseError None = OK
   \<and> fuseError (Some \<lparr>NotExist = Some True, ReadOnly = None, NotDir = None\<rparr>) = ENOENT
   \<and> fuseError (Some \<lparr>NotExist = None, ReadOnly = Some True, NotDir = None\<rparr>) = EROFS
   \<and> fuseError (Some \<lparr>NotExist = Some False, ReadOnly = None, NotDir = Some True\<rparr>) = ENOTDIR
   \<and> fuseError (Some \<lparr>NotExist = None, ReadOnly = Some False, NotDir = None\<rparr>) = EIO"
  using fuseError_table [of "\<lparr>NotExist = Some True, ReadOnly = None, NotDir = None\<rparr>"]
    fuseError_table [of "\<lparr>NotExist = None, ReadOnly = Some True, NotDir = None\<rparr>"]
    fuseError_table [of "\<lparr>NotExist = Some False, ReadOnly = None, NotDir = Some True\<rparr>"]
    fuseError_table [of "\<lparr>NotExist = None, ReadOnly = Some False, NotDir = None\<rparr>"]
  by (simp add: GetNotExist_def GetReadOnly_def GetNotDir_def)

section \<open>A first request on a new instance\<close>

lemma sendPacket_newFS:
  "sendPacket \<lparr>WritePacket_fails = (\<lambda>p. False), recv = r\<rparr> body newFS =
     (Inr 0, \<lparr>clientOnce = True, nextid = 1, res = [0 \<mapsto> 0],
              written = [\<lparr>ID = 0, Body = body\<rparr>], made = Suc 0, reader = Reading, delivered = []\<rparr>)"
  by (simp add: sendPacket_def clientOnce_Do_def initClient_def nextID_def newFS_def)

section \<open>Responses of the wrong kind\<close>

text \<open>
  The handlers that return after the failed type assertion give EIO for that call;
  \<^verbatim>\<open>Chmod\<close> stands for them. \<^verbatim>\<open>Mkdir\<close> and \<^verbatim>\<open>Rmdir\<close> do not return.
\<close>

lemma Chmod_kind_mismatch:
  assumes "sendPacket e (ChmodRequest name mode) fs = (Inr resc, fs')"
    and "recv e resc = Some m" and "\<forall>err. m \<noteq> ChmodResponse err"
  shows "Chmod e name mode fs = (Inr EIO, fs')"
  using assms by (cases m) (simp_all add: Chmod_def)

lemma Mkdir_kind_mismatch:
  assumes "sendPacket e (MkdirRequest name mode) fs = (Inr resc, fs')"
    and "recv e resc = Some m" and "\<forall>err. m \<noteq> MkdirResponse err"
  shows "Mkdir e name mode fs = (Inl NilDereference, fs')"
  using assms by (cases m) (simp_all add: Mkdir_def)

lemma Rmdir_kind_mismatch:
  assumes "sendPacket e (RmdirRequest name) fs = (Inr resc, fs')"
    and "recv e resc = Some m" and "\<forall>err. m \<noteq> RmdirResponse err"
  shows "Rmdir e name fs = (Inl NilDereference, fs')"
  using assms by (cases m) (simp_all add: Rmdir_def)

text \<open>
  C3. The claim: a response of the wrong kind makes the operation return EIO, in
  particular for Mkdir and Rmdir. The code at the input where the peer answers a
  \<^verbatim>\<open>MkdirRequest\<close> (a \<^verbatim>\<open>RmdirRequest\<close>) on a new instance with a
  \<^verbatim>\<open>ChmodResponse\<close>: neither handler returns EIO, both dereference the nil response.
\<close>

theorem Mkdir_Rmdir_kind_mismatch:
  "fst (Mkdir \<lparr>WritePacket_fails = (\<lambda>p. False), recv = (\<lambda>c. Some (ChmodResponse None))\<rparr> ''d'' 493 newFS)
     = Inl NilDereference
   \<and> fst (Rmdir \<lparr>WritePacket_fails = (\<lambda>p. False), recv = (\<lambda>c. Some (ChmodResponse None))\<rparr> ''d'' newFS)
     = Inl NilDereference"
  by (simp add: Mkdir_def Rmdir_def sendPacket_newFS)

section \<open>Responses with an Error record\<close>

text \<open>
  C4. The claim: a response with an Error record makes the operation return the mapped
  status and no payload, in particular for the read of an open file and for OpenDir. The
  code at the input where the peer answers on a new instance with an Error record whose
  not-found reason is set, next to two bytes (one directory entry): the read returns the
  bytes with OK, and OpenDir returns the entry with ENOENT.
\<close>

theorem file_Read_OpenDir_Err:
  "fst (file_Read \<lparr>WritePacket_fails = (\<lambda>p. False),
                   recv = (\<lambda>c. Some (ReadResponse (Some \<lparr>NotExist = Some True, ReadOnly = None, NotDir = None\<rparr>) [7, 9]))\<rparr>
         \<lparr>handle = 3, origName = ''a'', origFlags = 0\<rparr> [0, 0, 0, 0] 0 newFS)
     = Inr (Some (ReadResultData [7, 9]), OK)
   \<and> fst (OpenDir \<lparr>WritePacket_fails = (\<lambda>p. False),
                   recv = (\<lambda>c. Some (ReaddirResponse (Some \<lparr>NotExist = Some True, ReadOnly = None, NotDir = None\<rparr>)
                                  [\<lparr>ent_Name = Some ''a'', ent_Mode = Some 420\<rparr>]))\<rparr> ''d'' newFS)
     = Inr (Some [\<lparr>Name = ''a'', DirMode = 420\<rparr>], ENOENT)"
  by (simp add: file_Read_def OpenDir_def sendPacket_newFS fuseError_def GetNotExist_def
      ent_GetName_def ent_GetMode_def)

section \<open>Reading an open file\<close>

text \<open>
  C6. When the request of a read was written and a \<^verbatim>\<open>ReadResponse\<close> is received,
  the read returns the bytes of the response as they are, with OK, whatever the length
  of the destination buffer.
\<close>

theorem file_Read_exact:
  assumes "sendPacket e (ReadRequest (handle f) off (of_nat (length dest))) fs = (Inr resc, fs')"
    and "recv e resc = Some (ReadResponse err data)"
  shows "file_Read e f dest off fs = (Inr (Some (ReadResultData data), OK), fs')"
  using assms by (simp add: file_Read_def)

theorem file_Read_exact_witness:
  "fst (file_Read \<lparr>WritePacket_fails = (\<lambda>p. False), recv = (\<lambda>c. Some (ReadResponse None [7, 9]))\<rparr>
      \<lparr>handle = 3, origName = ''a'', origFlags = 0\<rparr> [0, 0, 0, 0] 0 newFS)
     = Inr (Some (ReadResultData [7, 9]), OK)"
  using file_Read_exact [of "\<lparr>WritePacket_fails = (\<lambda>p. False), recv = (\<lambda>c. Some (ReadResponse None [7, 9]))\<rparr>"
     "\<lparr>handle = 3, origName = ''a'', origFlags = 0\<rparr>" 0 "[0, 0, 0, 0]" newFS 0 _ None "[7, 9]"]
  by (simp add: sendPacket_newFS)

section \<open>Attributes\<close>

text \<open>
  C7. GetAttr on the empty name returns OK with the synthetic attribute, whose mode is
  octal 755 with the directory bit (0x41ED), and leaves the instance as it is: no id is
  allocated and no packet is written, whatever the state of the instance and of the
  connection.
\<close>

theorem GetAttr_root:
  "GetAttr e [] fs =
     (Inr (Some \<lparr>Size = 0, Mode = 0x41ED, Nlink = 1, Blksize = 1024, Blocks = 1\<rparr>, OK), fs)"
  by (simp add: GetAttr_def S_IFDIR_def)

text \<open>
  C10. GetAttr on a name other than the root, when the request was written and the
  \<^verbatim>\<open>AttrResponse\<close> has neither an Error record nor an attribute, returns no
  attribute and EIO.
\<close>

theorem GetAttr_nil_Attr:
  assumes "name \<noteq> []"
    and "sendPacket e (AttrRequest name) fs = (Inr resc, fs')"
    and "recv e resc = Some (AttrResponse None None)"
  shows "GetAttr e name fs = (Inr (None, EIO), fs')"
  using assms by (simp add: GetAttr_def)

theorem GetAttr_nil_Attr_witness:
  "GetAttr \<lparr>WritePacket_fails = (\<lambda>p. False), recv = (\<lambda>c. Some (AttrResponse None None))\<rparr> ''a'' newFS
     = (Inr (None, EIO), snd (sendPacket \<lparr>WritePacket_fails = (\<lambda>p. False), recv = (\<lambda>c. Some (AttrResponse None None))\<rparr> (AttrRequest ''a'') newFS))"
  using GetAttr_nil_Attr [of "''a''" "\<lparr>WritePacket_fails = (\<lambda>p. False), recv = (\<lambda>c. Some (AttrResponse None None))\<rparr>" newFS 0]
  by (simp add: sendPacket_newFS)

section \<open>Open\<close>

text \<open>
  C8. When the request of Open was written and the \<^verbatim>\<open>OpenResponse\<close> has no Error
  record and the handle 0 (set to 0 or unset), Open returns no file and EIO; and whenever
  Open returns a file, the handle of the file is not 0.
\<close>

theorem Open_handle_zero:
  "(sendPacket e (OpenRequest name flags) fs = (Inr resc, fs')
      \<and> recv e resc = Some (OpenResponse None h) \<and> GetHandle h = 0
      \<longrightarrow> Open e name flags fs = (Inr (None, EIO), fs'))
   \<and> (fst (Open e name flags fs) = Inr (Some f, st) \<longrightarrow> handle f \<noteq> 0)"
proof (intro conjI impI)
  assume "sendPacket e (OpenRequest name flags) fs = (Inr resc, fs')
      \<and> recv e resc = Some (OpenResponse None h) \<and> GetHandle h = 0"
  then show "Open e name flags fs = (Inr (None, EIO), fs')"
    by (simp add: Open_def)
next
  assume a: "fst (Open e name flags fs) = Inr (Some f, st)"
  obtain r fs' where s: "sendPacket e (OpenRequest name flags) fs = (r, fs')"
    by (cases "sendPacket e (OpenRequest name flags) fs")
  show "handle f \<noteq> 0"
  proof (cases r)
    case (Inl x)
    with a s show ?thesis by (simp add: Open_def)
  next
    case (Inr resc)
    show ?thesis
    proof (cases "recv e resc")
      case None
      with a s Inr show ?thesis by (simp add: Open_def)
    next
      case (Some m)
      with a s Inr show ?thesis
        by (cases m) (auto simp: Open_def Let_def split: if_splits)
    qed
  qed
qed

theorem Open_handle_zero_witness:
  "Open \<lparr>WritePacket_fails = (\<lambda>p. False), recv = (\<lambda>c. Some (OpenResponse None (Some 0)))\<rparr> ''a'' 0 newFS
     = (Inr (None, EIO), snd (sendPacket \<lparr>WritePacket_fails = (\<lambda>p. False), recv = (\<lambda>c. Some (OpenResponse None (Some 0)))\<rparr> (OpenRequest ''a'' 0) newFS))
   \<and> fst (Open \<lparr>WritePacket_fails = (\<lambda>p. False), recv = (\<lambda>c. Some (OpenResponse None (Some 5)))\<rparr> ''a'' 0 newFS)
       = Inr (Some \<lparr>handle = 5, origName = ''a'', origFlags = 0\<rparr>, OK)
   \<and> handle \<lparr>handle = 5, origName = ''a'', origFlags = 0\<rparr> \<noteq> (0 :: u64)"
proof -
  have r: "fst (Open \<lparr>WritePacket_fails = (\<lambda>p. False), recv = (\<lambda>c. Some (OpenResponse None (Some 5)))\<rparr> ''a'' 0 newFS)
       = Inr (Some \<lparr>handle = 5, origName = ''a'', origFlags = 0\<rparr>, OK)"
    by (simp add: Open_def sendPacket_newFS GetHandle_def)
  show ?thesis
    using Open_handle_zero [of "\<lparr>WritePacket_fails = (\<lambda>p. False), recv = (\<lambda>c. Some (OpenResponse None (Some 0)))\<rparr>"
        "''a''" 0 newFS 0 _ "Some 0"]
      Open_handle_zero [of "\<lparr>WritePacket_fails = (\<lambda>p. False), recv = (\<lambda>c. Some (OpenResponse None (Some 5)))\<rparr>"
        "''a''" 0 newFS _ _ _ "\<lparr>handle = 5, origName = ''a'', origFlags = 0\<rparr>" OK] r
    by (simp add: sendPacket_newFS GetHandle_def)
qed

section \<open>Utimens\<close>

text \<open>
  C9. The claim: Utimens builds and sends its request also when a time argument is nil,
  and building the request never faults. The code at a nil \<^verbatim>\<open>atime\<close>, and at a
  nil \<^verbatim>\<open>mtime\<close> after a proper \<^verbatim>\<open>atime\<close>: \<^verbatim>\<open>pbTime\<close> dereferences nil, and the
  instance is as before, so no request was built or sent.
\<close>

theorem Utimens_nil_time:
  "Utimens e name None mtime fs = (Inl NilDereference, fs)
   \<and> Utimens e name (Some t) None fs = (Inl NilDereference, fs)"
  by (simp add: Utimens_def pbTime_def)

section \<open>The registry under every schedule\<close>

subsection \<open>The invariant holds\<close>

lemma registry_invI:
  assumes "\<And>rid c. res fs rid = Some c \<Longrightarrow> c < made fs"
    and "\<And>rid rid' c. res fs rid = Some c \<Longrightarrow> res fs rid' = Some c \<Longrightarrow> rid = rid'"
    and "\<And>x. x \<in> set (delivered fs) \<Longrightarrow> fst (snd x) < made fs"
    and "\<And>x rid. x \<in> set (delivered fs) \<Longrightarrow> res fs rid \<noteq> Some (fst (snd x))"
    and "distinct (map (fst \<circ> snd) (delivered fs))"
    and "\<And>rid c b. reader fs = Sending rid c b \<Longrightarrow> c < made fs"
    and "\<And>rid c b rid'. reader fs = Sending rid c b \<Longrightarrow> res fs rid' \<noteq> Some c"
    and "\<And>rid c b. reader fs = Sending rid c b \<Longrightarrow> c \<notin> (fst \<circ> snd) ` set (delivered fs)"
    and "reader fs \<noteq> NotStarted \<Longrightarrow> clientOnce fs"
  shows "registry_inv fs"
  unfolding registry_inv_def
  apply (intro conjI allI impI ballI)
  subgoal using assms(1) by blast
  subgoal using assms(2) by blast
  subgoal using assms(3) by blast
  subgoal using assms(4) by blast
  subgoal using assms(5) by blast
  subgoal using assms(6) by blast
  subgoal using assms(7) by blast
  subgoal using assms(8) by blast
  subgoal using assms(9) by blast
  done

lemma inv_res_made: "registry_inv fs \<Longrightarrow> res fs rid = Some c \<Longrightarrow> c < made fs"
  unfolding registry_inv_def by blast

lemma inv_res_inj: "registry_inv fs \<Longrightarrow> res fs rid = Some c \<Longrightarrow> res fs rid' = Some c \<Longrightarrow> rid = rid'"
  unfolding registry_inv_def by blast

lemma inv_del_made: "registry_inv fs \<Longrightarrow> x \<in> set (delivered fs) \<Longrightarrow> fst (snd x) < made fs"
  unfolding registry_inv_def by blast

lemma inv_del_res: "registry_inv fs \<Longrightarrow> x \<in> set (delivered fs) \<Longrightarrow> res fs rid \<noteq> Some (fst (snd x))"
  unfolding registry_inv_def by blast

lemma inv_distinct: "registry_inv fs \<Longrightarrow> distinct (map (fst \<circ> snd) (delivered fs))"
  unfolding registry_inv_def by blast

lemma inv_sending_made: "registry_inv fs \<Longrightarrow> reader fs = Sending rid c b \<Longrightarrow> c < made fs"
  unfolding registry_inv_def by blast

lemma inv_sending_res: "registry_inv fs \<Longrightarrow> reader fs = Sending rid c b \<Longrightarrow> res fs rid' \<noteq> Some c"
  unfolding registry_inv_def by blast

lemma inv_sending_del:
  "registry_inv fs \<Longrightarrow> reader fs = Sending rid c b \<Longrightarrow> c \<notin> (fst \<circ> snd) ` set (delivered fs)"
  unfolding registry_inv_def by blast

lemma inv_started: "registry_inv fs \<Longrightarrow> reader fs \<noteq> NotStarted \<Longrightarrow> clientOnce fs"
  unfolding registry_inv_def by blast

lemma registry_inv_cong:
  "res fs' = res fs \<Longrightarrow> made fs' = made fs \<Longrightarrow> delivered fs' = delivered fs \<Longrightarrow>
   reader fs' = reader fs \<Longrightarrow> clientOnce fs' = clientOnce fs \<Longrightarrow>
   registry_inv fs' = registry_inv fs"
  by (simp add: registry_inv_def)

lemma inv_newFS: "registry_inv newFS"
  by (rule registry_invI) (simp_all add: newFS_def)

lemma nextID_eq:
  "nextID fs = ((nextid fs, made fs),
     fs\<lparr>made := Suc (made fs), nextid := nextid fs + 1, res := (res fs)(nextid fs \<mapsto> made fs)\<rparr>)"
  by (simp add: nextID_def Let_def)

lemma inv_written: "registry_inv fs \<Longrightarrow> registry_inv (fs\<lparr>written := w\<rparr>)"
  using registry_inv_cong [of "fs\<lparr>written := w\<rparr>" fs] by simp

lemma inv_clientOnce_Do: "registry_inv fs \<Longrightarrow> registry_inv (clientOnce_Do fs)"
  by (simp add: registry_inv_def clientOnce_Do_def initClient_def)

lemma inv_nextID:
  assumes i: "registry_inv fs"
  shows "registry_inv (snd (nextID fs))"
proof -
  let ?fs = "fs\<lparr>made := Suc (made fs), nextid := nextid fs + 1, res := (res fs)(nextid fs \<mapsto> made fs)\<rparr>"
  have "registry_inv ?fs"
  proof (rule registry_invI)
    fix rid c assume "res ?fs rid = Some c"
    then show "c < made ?fs"
      using inv_res_made [OF i, of rid c] by (simp split: if_splits)
  next
    fix rid rid' c assume "res ?fs rid = Some c" and "res ?fs rid' = Some c"
    then show "rid = rid'"
      using inv_res_made [OF i, of rid c] inv_res_made [OF i, of rid' c] inv_res_inj [OF i, of rid c rid']
      by (simp split: if_splits)
  next
    fix x assume "x \<in> set (delivered ?fs)"
    then show "fst (snd x) < made ?fs"
      using inv_del_made [OF i, of x] by simp
  next
    fix x rid assume "x \<in> set (delivered ?fs)"
    then show "res ?fs rid \<noteq> Some (fst (snd x))"
      using inv_del_made [OF i, of x] inv_del_res [OF i, of x rid] by simp
  next
    show "distinct (map (fst \<circ> snd) (delivered ?fs))"
      using inv_distinct [OF i] by simp
  next
    fix rid c b assume "reader ?fs = Sending rid c b"
    then show "c < made ?fs"
      using inv_sending_made [OF i, of rid c b] by simp
  next
    fix rid c b rid' assume "reader ?fs = Sending rid c b"
    then show "res ?fs rid' \<noteq> Some c"
      using inv_sending_made [OF i, of rid c b] inv_sending_res [OF i, of rid c b rid'] by simp
  next
    fix rid c b assume "reader ?fs = Sending rid c b"
    then show "c \<notin> (fst \<circ> snd) ` set (delivered ?fs)"
      using inv_sending_del [OF i, of rid c b] by simp
  next
    assume "reader ?fs \<noteq> NotStarted"
    then show "clientOnce ?fs"
      using inv_started [OF i] by simp
  qed
  then show ?thesis by (simp add: nextID_eq)
qed

lemma sendPacket_snd:
  "\<exists>w. snd (sendPacket e body fs) = (snd (nextID (clientOnce_Do fs)))\<lparr>written := w\<rparr>"
proof (cases "WritePacket_fails e \<lparr>ID = nextid (clientOnce_Do fs), Body = body\<rparr>")
  case True
  then have "snd (sendPacket e body fs)
      = (snd (nextID (clientOnce_Do fs)))\<lparr>written := written (snd (nextID (clientOnce_Do fs)))\<rparr>"
    by (simp add: sendPacket_def nextID_eq Let_def)
  then show ?thesis ..
next
  case False
  then have "snd (sendPacket e body fs)
      = (snd (nextID (clientOnce_Do fs)))\<lparr>written := written (snd (nextID (clientOnce_Do fs)))
            @ [\<lparr>ID = nextid (clientOnce_Do fs), Body = body\<rparr>]\<rparr>"
    by (simp add: sendPacket_def nextID_eq Let_def)
  then show ?thesis ..
qed

lemma inv_sendPacket:
  assumes "registry_inv fs"
  shows "registry_inv (snd (sendPacket e body fs))"
proof -
  have n: "registry_inv (snd (nextID (clientOnce_Do fs)))"
    using assms by (intro inv_nextID inv_clientOnce_Do)
  obtain w where "snd (sendPacket e body fs) = (snd (nextID (clientOnce_Do fs)))\<lparr>written := w\<rparr>"
    using sendPacket_snd by blast
  then show ?thesis using inv_written [OF n] by simp
qed

lemma readFromClient_read_unmatched:
  "res fs (ID p) = None \<Longrightarrow> readFromClient_read (Some p) fs = fs\<lparr>reader := Returned\<rparr>"
  by (simp add: readFromClient_read_def Let_def)

lemma readFromClient_read_matched:
  "res fs (ID p) = Some c \<Longrightarrow>
   readFromClient_read (Some p) fs
     = fs\<lparr>res := (res fs)(ID p := None), reader := Sending (ID p) c (Body p)\<rparr>"
  by (simp add: readFromClient_read_def Let_def forgetRequestLocked_def)

lemma readFromClient_send_Sending:
  "reader fs = Sending rid c b \<Longrightarrow>
   readFromClient_send fs = fs\<lparr>delivered := delivered fs @ [(rid, c, b)], reader := Reading\<rparr>"
  by (simp add: readFromClient_send_def)

lemma readFromClient_send_other:
  "\<not> (\<exists>rid c b. reader fs = Sending rid c b) \<Longrightarrow> readFromClient_send fs = fs"
  by (cases "reader fs") (simp_all add: readFromClient_send_def)

lemma inv_Returned:
  assumes i: "registry_inv fs" and c: "clientOnce fs"
  shows "registry_inv (fs\<lparr>reader := Returned\<rparr>)"
proof (rule registry_invI)
  fix rid c assume "res (fs\<lparr>reader := Returned\<rparr>) rid = Some c"
  then show "c < made (fs\<lparr>reader := Returned\<rparr>)"
    using inv_res_made [OF i, of rid c] by simp
next
  fix rid rid' c
  assume "res (fs\<lparr>reader := Returned\<rparr>) rid = Some c" and "res (fs\<lparr>reader := Returned\<rparr>) rid' = Some c"
  then show "rid = rid'"
    using inv_res_inj [OF i, of rid c rid'] by simp
next
  fix x assume "x \<in> set (delivered (fs\<lparr>reader := Returned\<rparr>))"
  then show "fst (snd x) < made (fs\<lparr>reader := Returned\<rparr>)"
    using inv_del_made [OF i, of x] by simp
next
  fix x rid assume "x \<in> set (delivered (fs\<lparr>reader := Returned\<rparr>))"
  then show "res (fs\<lparr>reader := Returned\<rparr>) rid \<noteq> Some (fst (snd x))"
    using inv_del_res [OF i, of x rid] by simp
next
  show "distinct (map (fst \<circ> snd) (delivered (fs\<lparr>reader := Returned\<rparr>)))"
    using inv_distinct [OF i] by simp
next
  show "clientOnce (fs\<lparr>reader := Returned\<rparr>)" using c by simp
qed simp_all

lemma inv_read:
  assumes i: "registry_inv fs" and rd: "reader fs = Reading"
  shows "registry_inv (readFromClient_read r fs)"
proof -
  have co: "clientOnce fs" using inv_started [OF i] rd by simp
  show ?thesis
  proof (cases r)
    case None
    then show ?thesis using inv_Returned [OF i co] by (simp add: readFromClient_read_def)
  next
    case (Some p)
    show ?thesis
    proof (cases "res fs (ID p)")
      case None
      then show ?thesis
        using inv_Returned [OF i co] Some by (simp add: readFromClient_read_unmatched)
    next
      case c: (Some c)
      let ?fs = "fs\<lparr>res := (res fs)(ID p := None), reader := Sending (ID p) c (Body p)\<rparr>"
      have "registry_inv ?fs"
      proof (rule registry_invI)
        fix rid c' assume "res ?fs rid = Some c'"
        then show "c' < made ?fs"
          using inv_res_made [OF i, of rid c'] by (simp split: if_splits)
      next
        fix rid rid' c' assume "res ?fs rid = Some c'" and "res ?fs rid' = Some c'"
        then show "rid = rid'"
          using inv_res_inj [OF i, of rid c' rid'] by (simp split: if_splits)
      next
        fix x assume "x \<in> set (delivered ?fs)"
        then show "fst (snd x) < made ?fs"
          using inv_del_made [OF i, of x] by simp
      next
        fix x rid assume "x \<in> set (delivered ?fs)"
        then show "res ?fs rid \<noteq> Some (fst (snd x))"
          using inv_del_res [OF i, of x rid] by simp
      next
        show "distinct (map (fst \<circ> snd) (delivered ?fs))"
          using inv_distinct [OF i] by simp
      next
        fix rid c' b assume "reader ?fs = Sending rid c' b"
        then show "c' < made ?fs"
          using inv_res_made [OF i c] by simp
      next
        fix rid c' b rid' assume "reader ?fs = Sending rid c' b"
        then show "res ?fs rid' \<noteq> Some c'"
          using inv_res_inj [OF i c, of rid'] by auto
      next
        fix rid c' b assume s: "reader ?fs = Sending rid c' b"
        show "c' \<notin> (fst \<circ> snd) ` set (delivered ?fs)"
        proof
          assume "c' \<in> (fst \<circ> snd) ` set (delivered ?fs)"
          then obtain x where "x \<in> set (delivered fs)" and "fst (snd x) = c'" by auto
          then show False using inv_del_res [OF i, of x "ID p"] c s by simp
        qed
      next
        show "clientOnce ?fs" using co by simp
      qed
      then show ?thesis using Some c by (simp add: readFromClient_read_matched)
    qed
  qed
qed

lemma inv_send:
  assumes i: "registry_inv fs"
  shows "registry_inv (readFromClient_send fs)"
proof (cases "\<exists>rid c b. reader fs = Sending rid c b")
  case False
  then have "readFromClient_send fs = fs"
    by (rule readFromClient_send_other)
  with i show ?thesis by simp
next
  case True
  then obtain rid c b where s: "reader fs = Sending rid c b" by blast
  let ?fs = "fs\<lparr>delivered := delivered fs @ [(rid, c, b)], reader := Reading\<rparr>"
  have co: "clientOnce fs" using inv_started [OF i] s by simp
  have "registry_inv ?fs"
  proof (rule registry_invI)
    fix rid' c' assume "res ?fs rid' = Some c'"
    then show "c' < made ?fs"
      using inv_res_made [OF i, of rid' c'] by simp
  next
    fix rid1 rid2 c' assume "res ?fs rid1 = Some c'" and "res ?fs rid2 = Some c'"
    then show "rid1 = rid2"
      using inv_res_inj [OF i, of rid1 c' rid2] by simp
  next
    fix x assume "x \<in> set (delivered ?fs)"
    then show "fst (snd x) < made ?fs"
      using inv_del_made [OF i, of x] inv_sending_made [OF i s] by auto
  next
    fix x rid' assume "x \<in> set (delivered ?fs)"
    then show "res ?fs rid' \<noteq> Some (fst (snd x))"
      using inv_del_res [OF i, of x rid'] inv_sending_res [OF i s, of rid'] by auto
  next
    show "distinct (map (fst \<circ> snd) (delivered ?fs))"
      using inv_distinct [OF i] inv_sending_del [OF i s] by simp
  next
    show "clientOnce ?fs" using co by simp
  qed simp_all
  then show ?thesis using s by (simp add: readFromClient_send_Sending)
qed

lemma inv_step: "registry_inv fs \<Longrightarrow> registry_inv (step e ev fs)"
  by (cases ev) (simp_all add: inv_sendPacket inv_read inv_send)

lemma inv_run: "registry_inv fs \<Longrightarrow> registry_inv (run e evs fs)"
  by (induction evs arbitrary: fs) (simp_all add: inv_step)

subsection \<open>What a step changes\<close>

lemma clientOnce_Do_fields:
  "nextid (clientOnce_Do fs) = nextid fs" "made (clientOnce_Do fs) = made fs"
  "res (clientOnce_Do fs) = res fs" "delivered (clientOnce_Do fs) = delivered fs"
  "clientOnce (clientOnce_Do fs)"
  "clientOnce fs \<Longrightarrow> reader (clientOnce_Do fs) = reader fs"
  by (simp_all add: clientOnce_Do_def initClient_def)

lemma sendPacket_fields:
  "nextid (snd (sendPacket e body fs)) = nextid fs + 1"
  "made (snd (sendPacket e body fs)) = Suc (made fs)"
  "res (snd (sendPacket e body fs)) = (res fs)(nextid fs \<mapsto> made fs)"
  "delivered (snd (sendPacket e body fs)) = delivered fs"
  "clientOnce (snd (sendPacket e body fs))"
  "clientOnce fs \<Longrightarrow> reader (snd (sendPacket e body fs)) = reader fs"
  by (simp_all add: sendPacket_def Let_def nextID_eq clientOnce_Do_fields)

lemma readFromClient_read_fields:
  "nextid (readFromClient_read r fs) = nextid fs"
  "made (readFromClient_read r fs) = made fs"
  "clientOnce (readFromClient_read r fs) = clientOnce fs"
  "delivered (readFromClient_read r fs) = delivered fs"
  "res fs rid = None \<Longrightarrow> res (readFromClient_read r fs) rid = None"
  by (simp_all add: readFromClient_read_def Let_def forgetRequestLocked_def split: option.splits)

lemma readFromClient_send_fields:
  "nextid (readFromClient_send fs) = nextid fs"
  "made (readFromClient_send fs) = made fs"
  "clientOnce (readFromClient_send fs) = clientOnce fs"
  "res (readFromClient_send fs) = res fs"
  by (simp_all add: readFromClient_send_def split: reader.splits)

lemma Returned_step:
  assumes "reader fs = Returned" and "clientOnce fs"
  shows "reader (step e ev fs) = Returned \<and> clientOnce (step e ev fs)
         \<and> delivered (step e ev fs) = delivered fs"
  using assms by (cases ev) (simp_all add: sendPacket_fields readFromClient_send_def)

lemma Returned_run:
  "reader fs = Returned \<Longrightarrow> clientOnce fs \<Longrightarrow>
   reader (run e evs fs) = Returned \<and> delivered (run e evs fs) = delivered fs"
proof (induction evs arbitrary: fs)
  case Nil
  then show ?case by simp
next
  case (Cons ev evs)
  from Returned_step [OF Cons.prems, of e ev]
  have "reader (step e ev fs) = Returned" and "clientOnce (step e ev fs)"
    and d: "delivered (step e ev fs) = delivered fs" by simp_all
  from Cons.IH [OF this(1,2)] d show ?case by simp
qed

lemma res_None_run:
  "res fs rid = None \<Longrightarrow> rid \<notin> fst ` set (nextID_returns e evs fs) \<Longrightarrow>
   res (run e evs fs) rid = None"
proof (induction evs arbitrary: fs)
  case Nil
  then show ?case by simp
next
  case (Cons ev evs)
  show ?case
  proof (cases ev)
    case (Call_sendPacket body)
    with Cons.prems have ne: "rid \<noteq> nextid fs"
      and rest: "rid \<notin> fst ` set (nextID_returns e evs (step e ev fs))"
      by (simp_all add: nextID_eq clientOnce_Do_fields)
    have "res (step e ev fs) rid = None"
      using Cons.prems(1) ne Call_sendPacket by (simp add: sendPacket_fields)
    from Cons.IH [OF this rest] show ?thesis by simp
  next
    case (Read_Packet r)
    with Cons.prems have rest: "rid \<notin> fst ` set (nextID_returns e evs (step e ev fs))" by simp
    have "res (step e ev fs) rid = None"
      using Cons.prems(1) Read_Packet by (simp add: readFromClient_read_fields)
    from Cons.IH [OF this rest] show ?thesis by simp
  next
    case Chan_Send
    with Cons.prems have rest: "rid \<notin> fst ` set (nextID_returns e evs (step e ev fs))" by simp
    have "res (step e ev fs) rid = None"
      using Cons.prems(1) Chan_Send by (simp add: readFromClient_send_fields)
    from Cons.IH [OF this rest] show ?thesis by simp
  qed
qed

lemmas registry_eval =
  sendPacket_def clientOnce_Do_def initClient_def nextID_def newFS_def
  readFromClient_read_def readFromClient_send_def forgetRequestLocked_def Let_def


section \<open>Delivery by the read loop\<close>

text \<open>
  C1. In the state after any schedule on a new instance: no channel has received more
  than one message from the read loop, so every waiting caller is delivered to at most
  once. When the loop reads a packet whose id has no entry in the registry, the loop
  returns, and whatever follows, it stays returned and nothing more is delivered: the
  packet reaches no caller. When the loop reads a packet whose id has an entry, the entry
  is removed first and the send on the channel of the entry comes after; and as long as
  \<^verbatim>\<open>nextID\<close> does not return this id again, the id has no entry, so that a second
  packet with it is of the former kind. (A channel has room for one message and gets at
  most one, so the send of the loop never waits.)
\<close>

theorem readFromClient_at_most_once:
  "(let fs = run e evs newFS in
      distinct (map (fst \<circ> snd) (delivered fs))
    \<and> (reader fs = Reading \<and> res fs (ID p) = None \<longrightarrow>
         (let fs' = step e (Read_Packet (Some p)) fs in
            reader fs' = Returned
          \<and> reader (run e evs' fs') = Returned
          \<and> delivered (run e evs' fs') = delivered fs))
    \<and> (reader fs = Reading \<and> res fs (ID p) = Some c \<longrightarrow>
         (let fs' = step e (Read_Packet (Some p)) fs in
            fs' = fs\<lparr>res := (res fs)(ID p := None), reader := Sending (ID p) c (Body p)\<rparr>
          \<and> delivered (step e Chan_Send fs') = delivered fs @ [(ID p, c, Body p)]
          \<and> (ID p \<notin> fst ` set (nextID_returns e evs' fs') \<longrightarrow> res (run e evs' fs') (ID p) = None))))"
proof -
  define fs where "fs = run e evs newFS"
  have i: "registry_inv fs"
    unfolding fs_def by (rule inv_run [OF inv_newFS])
  have a: "distinct (map (fst \<circ> snd) (delivered fs))"
    by (rule inv_distinct [OF i])
  have b: "reader (step e (Read_Packet (Some p)) fs) = Returned
          \<and> reader (run e evs' (step e (Read_Packet (Some p)) fs)) = Returned
          \<and> delivered (run e evs' (step e (Read_Packet (Some p)) fs)) = delivered fs"
    if rd: "reader fs = Reading" and no: "res fs (ID p) = None"
  proof -
    have co: "clientOnce fs" using inv_started [OF i] rd by simp
    have s: "step e (Read_Packet (Some p)) fs = fs\<lparr>reader := Returned\<rparr>"
      using rd no by (simp add: readFromClient_read_unmatched)
    have "reader (fs\<lparr>reader := Returned\<rparr>) = Returned" and "clientOnce (fs\<lparr>reader := Returned\<rparr>)"
      using co by simp_all
    from Returned_run [OF this, of e evs'] show ?thesis unfolding s by simp
  qed
  have c: "step e (Read_Packet (Some p)) fs
             = fs\<lparr>res := (res fs)(ID p := None), reader := Sending (ID p) c (Body p)\<rparr>
          \<and> delivered (step e Chan_Send (step e (Read_Packet (Some p)) fs))
             = delivered fs @ [(ID p, c, Body p)]
          \<and> (ID p \<notin> fst ` set (nextID_returns e evs' (step e (Read_Packet (Some p)) fs))
               \<longrightarrow> res (run e evs' (step e (Read_Packet (Some p)) fs)) (ID p) = None)"
    if rd: "reader fs = Reading" and yes: "res fs (ID p) = Some c"
  proof -
    have s: "step e (Read_Packet (Some p)) fs
               = fs\<lparr>res := (res fs)(ID p := None), reader := Sending (ID p) c (Body p)\<rparr>"
      using rd yes by (simp add: readFromClient_read_matched)
    have d: "delivered (step e Chan_Send (step e (Read_Packet (Some p)) fs))
               = delivered fs @ [(ID p, c, Body p)]"
      unfolding s by (simp add: readFromClient_send_def)
    have n: "res (step e (Read_Packet (Some p)) fs) (ID p) = None"
      unfolding s by simp
    show ?thesis
      using s d res_None_run [OF n, of e evs'] by blast
  qed
  show ?thesis
    unfolding Let_def fs_def [symmetric] using a b c by blast
qed

theorem readFromClient_at_most_once_witness:
  "reader (run \<lparr>WritePacket_fails = (\<lambda>p. False), recv = (\<lambda>c. None)\<rparr>
             [Call_sendPacket (AttrRequest ''a'')] newFS) = Reading
   \<and> res (run \<lparr>WritePacket_fails = (\<lambda>p. False), recv = (\<lambda>c. None)\<rparr>
             [Call_sendPacket (AttrRequest ''a'')] newFS) 0 = Some 0
   \<and> res (run \<lparr>WritePacket_fails = (\<lambda>p. False), recv = (\<lambda>c. None)\<rparr>
             [Call_sendPacket (AttrRequest ''a'')] newFS) 7 = None
   \<and> delivered (run \<lparr>WritePacket_fails = (\<lambda>p. False), recv = (\<lambda>c. None)\<rparr>
             [Call_sendPacket (AttrRequest ''a''),
              Read_Packet (Some \<lparr>ID = 0, Body = AttrResponse None None\<rparr>), Chan_Send] newFS)
       = [(0, 0, AttrResponse None None)]
   \<and> res (run \<lparr>WritePacket_fails = (\<lambda>p. False), recv = (\<lambda>c. None)\<rparr>
             [Call_sendPacket (AttrRequest ''a''),
              Read_Packet (Some \<lparr>ID = 0, Body = AttrResponse None None\<rparr>), Chan_Send] newFS) 0 = None
   \<and> reader (run \<lparr>WritePacket_fails = (\<lambda>p. False), recv = (\<lambda>c. None)\<rparr>
             [Call_sendPacket (AttrRequest ''a''),
              Read_Packet (Some \<lparr>ID = 7, Body = AttrResponse None None\<rparr>),
              Call_sendPacket (AttrRequest ''b''), Chan_Send] newFS) = Returned
   \<and> delivered (run \<lparr>WritePacket_fails = (\<lambda>p. False), recv = (\<lambda>c. None)\<rparr>
             [Call_sendPacket (AttrRequest ''a''),
              Read_Packet (Some \<lparr>ID = 7, Body = AttrResponse None None\<rparr>),
              Call_sendPacket (AttrRequest ''b''), Chan_Send] newFS) = []"
  using readFromClient_at_most_once
          [of "\<lparr>WritePacket_fails = (\<lambda>p. False), recv = (\<lambda>c. None)\<rparr>"
              "[Call_sendPacket (AttrRequest ''a'')]"
              "\<lparr>ID = 0, Body = AttrResponse None None\<rparr>" "[Chan_Send]" 0]
        readFromClient_at_most_once
          [of "\<lparr>WritePacket_fails = (\<lambda>p. False), recv = (\<lambda>c. None)\<rparr>"
              "[Call_sendPacket (AttrRequest ''a'')]"
              "\<lparr>ID = 7, Body = AttrResponse None None\<rparr>"
              "[Call_sendPacket (AttrRequest ''b''), Chan_Send]" 0]
  by (simp add: registry_eval)

section \<open>The identifiers of nextID\<close>

lemma step_counters:
  "nextid (step e ev fs) = (if is_Call_sendPacket ev then nextid fs + 1 else nextid fs)"
  "made (step e ev fs) = (if is_Call_sendPacket ev then Suc (made fs) else made fs)"
  by (cases ev; simp add: sendPacket_fields readFromClient_read_fields readFromClient_send_fields)+

lemma nextID_returns_eq:
  "nextID_returns e evs fs =
     map (\<lambda>k. (nextid fs + of_nat k, made fs + k)) [0..<length (filter is_Call_sendPacket evs)]"
proof (induction evs arbitrary: fs)
  case Nil
  then show ?case by simp
next
  case (Cons ev evs)
  show ?case
  proof (cases ev)
    case (Call_sendPacket body)
    then show ?thesis
      by (simp add: Cons.IH sendPacket_fields nextID_eq clientOnce_Do_fields map_upt_Suc
          add.assoc add.commute del: upt_Suc)
  next
    case (Read_Packet r)
    then show ?thesis using step_counters [of e ev fs] by (simp add: Cons.IH)
  next
    case Chan_Send
    then show ?thesis using step_counters [of e ev fs] by (simp add: Cons.IH)
  qed
qed

lemma of_nat_u64_inj:
  assumes "j < 2 ^ 64" and "k < 2 ^ 64" and "(of_nat j :: u64) = of_nat k"
  shows "j = k"
proof -
  have "unat (of_nat j :: u64) = unat (of_nat k :: u64)" using assms(3) by simp
  then show ?thesis using assms(1,2) by (simp add: unat_of_nat)
qed

lemma distinct_ids:
  assumes "n \<le> 2 ^ 64"
  shows "distinct (map (\<lambda>k. x + (of_nat k :: u64)) [0..<n])"
proof -
  have "inj_on (\<lambda>k. x + (of_nat k :: u64)) {0..<n}"
  proof (rule inj_onI)
    fix j k assume "j \<in> {0..<n}" and "k \<in> {0..<n}" and "x + (of_nat j :: u64) = x + of_nat k"
    then show "j = k" using assms of_nat_u64_inj [of j k] by simp
  qed
  then show ?thesis by (simp add: distinct_map)
qed

text \<open>
  C2, as the code has it. Along any schedule, the calls of \<^verbatim>\<open>nextID\<close> return the
  ids \<open>nextid\<close>, \<open>nextid + 1\<close>, ... of a 64-bit counter; when there are at most
  \<open>2 ^ 64\<close> calls, no id is returned twice; the channel of every call is a new one;
  and a call stores its channel in the registry under the id it returns.
\<close>

theorem nextID_no_repeat:
  "map fst (nextID_returns e evs fs)
     = map (\<lambda>k. nextid fs + of_nat k) [0..<length (filter is_Call_sendPacket evs)]
   \<and> (length (filter is_Call_sendPacket evs) \<le> 2 ^ 64 \<longrightarrow>
        distinct (map fst (nextID_returns e evs fs)))
   \<and> distinct (map snd (nextID_returns e evs fs))
   \<and> res (snd (nextID fs)) (fst (fst (nextID fs))) = Some (snd (fst (nextID fs)))"
proof -
  have a: "map fst (nextID_returns e evs fs)
     = map (\<lambda>k. nextid fs + of_nat k) [0..<length (filter is_Call_sendPacket evs)]"
    by (simp add: nextID_returns_eq comp_def)
  have b: "map snd (nextID_returns e evs fs)
     = map (\<lambda>k. made fs + k) [0..<length (filter is_Call_sendPacket evs)]"
    by (simp add: nextID_returns_eq comp_def)
  have c: "distinct (map (\<lambda>k. made fs + k) [0..<length (filter is_Call_sendPacket evs)])"
    by (simp add: distinct_map inj_on_def)
  show ?thesis
    using distinct_ids [of "length (filter is_Call_sendPacket evs)" "nextid fs"] c
    unfolding a b by (simp add: nextID_eq)
qed

theorem nextID_no_repeat_witness:
  "length (filter is_Call_sendPacket
      [Call_sendPacket (AttrRequest ''a''), Read_Packet None, Call_sendPacket (AttrRequest ''b'')]) \<le> 2 ^ 64
   \<and> map fst (nextID_returns \<lparr>WritePacket_fails = (\<lambda>p. False), recv = (\<lambda>c. None)\<rparr>
      [Call_sendPacket (AttrRequest ''a''), Read_Packet None, Call_sendPacket (AttrRequest ''b'')] newFS) = [0, 1]
   \<and> distinct (map fst (nextID_returns \<lparr>WritePacket_fails = (\<lambda>p. False), recv = (\<lambda>c. None)\<rparr>
      [Call_sendPacket (AttrRequest ''a''), Read_Packet None, Call_sendPacket (AttrRequest ''b'')] newFS))"
  using nextID_no_repeat [of "\<lparr>WritePacket_fails = (\<lambda>p. False), recv = (\<lambda>c. None)\<rparr>"
      "[Call_sendPacket (AttrRequest ''a''), Read_Packet None, Call_sendPacket (AttrRequest ''b'')]" newFS]
  by (simp add: newFS_def)

text \<open>
  The bound is needed: the counter is a \<^verbatim>\<open>uint64\<close> and \<^verbatim>\<open>fs.nextid++\<close>
  wraps, so the call after \<open>2 ^ 64\<close> calls on a new instance returns the id 0 of the
  first call again.
\<close>

theorem nextID_wraps_counterexample:
  "\<not> distinct (map fst (nextID_returns \<lparr>WritePacket_fails = (\<lambda>p. False), recv = (\<lambda>c. None)\<rparr>
        (replicate (2 ^ 64 + 1) (Call_sendPacket (AttrRequest ''a''))) newFS))"
proof -
  define N :: nat where "N = 2 ^ 64"
  define e0 where "e0 = \<lparr>WritePacket_fails = (\<lambda>p::Packet. False), recv = (\<lambda>c::chan. None :: message option)\<rparr>"
  define ids where "ids = map fst (nextID_returns e0 (replicate (N + 1) (Call_sendPacket (AttrRequest ''a''))) newFS)"
  have len: "length (filter is_Call_sendPacket (replicate (N + 1) (Call_sendPacket (AttrRequest ''a'')))) = N + 1"
    by simp
  have ids_eq: "ids = map (\<lambda>k. nextid newFS + (of_nat k :: u64)) [0..<N + 1]"
    unfolding ids_def nextID_returns_eq len by (simp add: comp_def del: upt_Suc)
  have l: "length ids = N + 1" unfolding ids_eq by simp
  have z: "(of_nat N :: u64) = 0" unfolding N_def by simp
  have "ids ! 0 = ids ! N"
    unfolding ids_eq using z by (simp add: nth_map_upt del: upt_Suc)
  moreover have "0 < N" unfolding N_def by simp
  ultimately have "\<not> distinct ids"
    using l by (metis distinct_conv_nth less_add_one less_imp_add_positive less_not_refl zero_less_one add.commute trans_less_add2)
  then show ?thesis unfolding ids_def N_def e0_def .
qed

end
